theory Spec2Isabelle
  imports Main
begin

section \<open>Router bootstrap coordinator: the embedding of \<open>router_module.ts\<close>\<close>

text \<open>
  The theory follows \<^verbatim>\<open>modules/@angular/router/src/router_module.ts\<close>: the
  provider lists of \<^verbatim>\<open>RouterModule.forRoot\<close> and \<^verbatim>\<open>forChild\<close>, the factories
  \<^verbatim>\<open>provideLocationStrategy\<close>, \<^verbatim>\<open>provideForRootGuard\<close> and \<^verbatim>\<open>setupRouter\<close>,
  and the class \<^verbatim>\<open>RouterInitializer\<close> with its two hooks.

  Objects of classes that the module only passes around (the URL serializer, the
  outlet map, error handler functions, component references, ...) are opaque object
  identities.
\<close>

subsection \<open>Tokens, options and provider declarations\<close>

datatype ref = Ref nat

text \<open>
  The injection tokens the module names. \<open>OtherToken\<close> stands for a class or token
  of the application, such as a preloading strategy of its own.
\<close>

datatype token =
    Location | UrlSerializer | Router | RouterOutletMap | ActivatedRoute
  | NgModuleFactoryLoader | RouterPreloader | NoPreloading | PreloadAllModules
  | ROUTER_CONFIGURATION | ROUTER_FORROOT_GUARD | LocationStrategy | PreloadingStrategy
  | ROUTES | ANALYZE_FOR_ENTRY_COMPONENTS | APP_INITIALIZER | APP_BOOTSTRAP_LISTENER
  | ROUTER_INITIALIZER | RouterInitializer | ApplicationRef | Injector | Compiler
  | PlatformLocation | APP_BASE_HREF | OtherToken string

text \<open>
  \<^verbatim>\<open>interface ExtraOptions\<close>: every field is optional, \<open>None\<close> is an absent field.
  The empty object literal \<^verbatim>\<open>{}\<close> is \<open>empty_options\<close>.
\<close>

record ExtraOptions =
  enableTracing :: "bool option"
  useHash :: "bool option"
  initialNavigation :: "bool option"
  errorHandler :: "ref option"
  preloadingStrategy :: "token option"

definition empty_options :: ExtraOptions where
  "empty_options =
     \<lparr>enableTracing = None, useHash = None, initialNavigation = None,
      errorHandler = None, preloadingStrategy = None\<rparr>"

text \<open>
  JavaScript truthiness of an optional boolean field (\<^verbatim>\<open>opts.useHash ? .. : ..\<close>):
  an absent field reads \<^verbatim>\<open>undefined\<close>, which is falsy, as \<^verbatim>\<open>false\<close> is.
\<close>

definition truthy :: "bool option \<Rightarrow> bool" where
  "truthy b = (case b of None \<Rightarrow> False | Some v \<Rightarrow> v)"

datatype class_name = PathLocationStrategy_class | HashLocationStrategy_class
  | DefaultUrlSerializer | SystemJsNgModuleLoader

datatype factory = setupRouter_factory | rootRoute_factory | provideForRootGuard_factory
  | provideLocationStrategy_factory | getAppInitializer_factory | getBootstrapListener_factory

datatype dep_flag = Optional | SkipSelf

datatype dep = Dep token "dep_flag list"

datatype 'r recipe =
    TypeProvider
  | UseClass class_name
  | UseValue_options ExtraOptions
  | UseValue_routes "'r list"
  | UseFactory factory "dep list"
  | UseExisting token

record 'r provider =
  provide :: token
  multi :: bool
  recipe :: "'r recipe"

text \<open>
  A provider array of the source may hold arrays again (\<^verbatim>\<open>ROUTER_PROVIDERS\<close> and the
  results of \<^verbatim>\<open>provideRoutes\<close> and \<^verbatim>\<open>provideRouterInitializer\<close> sit inside the
  array of \<^verbatim>\<open>forRoot\<close>).
\<close>

datatype 'r providers = P "'r provider" | Arr "'r providers list"

definition type_provider :: "token \<Rightarrow> 'r providers" where
  "type_provider t = P \<lparr>provide = t, multi = False, recipe = TypeProvider\<rparr>"

definition pathLocationStrategy :: "'r provider" where
  "pathLocationStrategy =
     \<lparr>provide = LocationStrategy, multi = False, recipe = UseClass PathLocationStrategy_class\<rparr>"

definition hashLocationStrategy :: "'r provider" where
  "hashLocationStrategy =
     \<lparr>provide = LocationStrategy, multi = False, recipe = UseClass HashLocationStrategy_class\<rparr>"

definition ROUTER_PROVIDERS :: "'r providers" where
  "ROUTER_PROVIDERS = Arr
     [type_provider Location,
      P \<lparr>provide = UrlSerializer, multi = False, recipe = UseClass DefaultUrlSerializer\<rparr>,
      P \<lparr>provide = Router, multi = False,
         recipe = UseFactory setupRouter_factory
           [Dep ApplicationRef [], Dep UrlSerializer [], Dep RouterOutletMap [],
            Dep Location [], Dep Injector [], Dep NgModuleFactoryLoader [],
            Dep Compiler [], Dep ROUTES [], Dep ROUTER_CONFIGURATION []]\<rparr>,
      type_provider RouterOutletMap,
      P \<lparr>provide = ActivatedRoute, multi = False,
         recipe = UseFactory rootRoute_factory [Dep Router []]\<rparr>,
      P \<lparr>provide = NgModuleFactoryLoader, multi = False,
         recipe = UseClass SystemJsNgModuleLoader\<rparr>,
      type_provider RouterPreloader,
      type_provider NoPreloading,
      type_provider PreloadAllModules,
      P \<lparr>provide = ROUTER_CONFIGURATION, multi = False,
         recipe = UseValue_options (empty_options\<lparr>enableTracing := Some False\<rparr>)\<rparr>]"

definition provideRoutes :: "'r list \<Rightarrow> 'r providers" where
  "provideRoutes routes = Arr
     [P \<lparr>provide = ANALYZE_FOR_ENTRY_COMPONENTS, multi = True, recipe = UseValue_routes routes\<rparr>,
      P \<lparr>provide = ROUTES, multi = True, recipe = UseValue_routes routes\<rparr>]"

definition provideRouterInitializer :: "'r providers" where
  "provideRouterInitializer = Arr
     [type_provider RouterInitializer,
      P \<lparr>provide = APP_INITIALIZER, multi = True,
         recipe = UseFactory getAppInitializer_factory [Dep RouterInitializer []]\<rparr>,
      P \<lparr>provide = ROUTER_INITIALIZER, multi = False,
         recipe = UseFactory getBootstrapListener_factory [Dep RouterInitializer []]\<rparr>,
      P \<lparr>provide = APP_BOOTSTRAP_LISTENER, multi = True, recipe = UseExisting ROUTER_INITIALIZER\<rparr>]"

datatype ng_module = RouterModule

record 'r ModuleWithProviders =
  ngModule :: ng_module
  providers :: "'r providers list"

text \<open>
  \<^verbatim>\<open>RouterModule.forRoot(routes, config?)\<close>. An absent \<^verbatim>\<open>config\<close> is \<open>None\<close>; a
  config object is truthy, so \<^verbatim>\<open>config ? config : {}\<close> tests presence only. The
  preloading strategy of the options is a class or token, hence truthy when present.
\<close>

definition forRoot :: "'r list \<Rightarrow> ExtraOptions option \<Rightarrow> 'r ModuleWithProviders" where
  "forRoot routes config =
     \<lparr>ngModule = RouterModule,
      providers =
        [ROUTER_PROVIDERS,
         provideRoutes routes,
         P \<lparr>provide = ROUTER_FORROOT_GUARD, multi = False,
            recipe = UseFactory provideForRootGuard_factory [Dep Router [Optional, SkipSelf]]\<rparr>,
         P \<lparr>provide = ROUTER_CONFIGURATION, multi = False,
            recipe = UseValue_options (case config of Some c \<Rightarrow> c | None \<Rightarrow> empty_options)\<rparr>,
         P \<lparr>provide = LocationStrategy, multi = False,
            recipe = UseFactory provideLocationStrategy_factory
              [Dep PlatformLocation [], Dep APP_BASE_HREF [Optional], Dep ROUTER_CONFIGURATION []]\<rparr>,
         P \<lparr>provide = PreloadingStrategy, multi = False,
            recipe = UseExisting
              (case config of
                 None \<Rightarrow> NoPreloading
               | Some c \<Rightarrow>
                   (case preloadingStrategy c of None \<Rightarrow> NoPreloading | Some s \<Rightarrow> s))\<rparr>,
         provideRouterInitializer]\<rparr>"

definition forChild :: "'r list \<Rightarrow> 'r ModuleWithProviders" where
  "forChild routes = \<lparr>ngModule = RouterModule, providers = [provideRoutes routes]\<rparr>"

subsection \<open>Location strategy and root guard\<close>

datatype LocationStrategy_obj =
    HashLocationStrategy ref string
  | PathLocationStrategy ref string

text \<open>
  \<^verbatim>\<open>provideLocationStrategy(platformLocationStrategy, baseHref, options = {})\<close>:
  an \<^verbatim>\<open>undefined\<close> third argument (\<open>None\<close>) takes the default \<^verbatim>\<open>{}\<close>.
\<close>

definition provideLocationStrategy ::
    "ref \<Rightarrow> string \<Rightarrow> ExtraOptions option \<Rightarrow> LocationStrategy_obj" where
  "provideLocationStrategy platformLocationStrategy baseHref options =
     (let options = (case options of None \<Rightarrow> empty_options | Some opts \<Rightarrow> opts)
      in if truthy (useHash options)
         then HashLocationStrategy platformLocationStrategy baseHref
         else PathLocationStrategy platformLocationStrategy baseHref)"

datatype error = Error string

text \<open>
  \<^verbatim>\<open>provideForRootGuard(router)\<close>: the argument is the Router found by the optional
  lookup, \<open>None\<close> for \<^verbatim>\<open>null\<close>. A Router object is truthy. The \<^verbatim>\<open>throw\<close> is \<open>Inl\<close>.
\<close>

definition provideForRootGuard :: "ref option \<Rightarrow> error + string" where
  "provideForRootGuard router =
     (case router of
        Some r \<Rightarrow> Inl (Error
          ''RouterModule.forRoot() called twice. Lazy loaded modules should use RouterModule.forChild() instead.'')
      | None \<Rightarrow> Inr ''guarded'')"

subsection \<open>The injector, as far as the module relies on it\<close>

text \<open>The injector reads a provider array with the arrays inside it laid out in order.\<close>

fun flat_providers :: "'r providers \<Rightarrow> 'r provider list" where
  "flat_providers (P p) = [p]"
| "flat_providers (Arr ps) = concat (map flat_providers ps)"

definition module_providers :: "'r ModuleWithProviders \<Rightarrow> 'r provider list" where
  "module_providers m = concat (map flat_providers (providers m))"

definition providers_of :: "token \<Rightarrow> 'r provider list \<Rightarrow> 'r provider list" where
  "providers_of t ps = filter (\<lambda>p. provide p = t) ps"

text \<open>
  Modelled from the spec: the injector of \<^verbatim>\<open>@angular/core\<close> is not among the
  sources. It resolves a token to one provider, and a later declaration of a token
  overrides an earlier one (``last merge wins'').
\<close>

definition resolve_provider :: "token \<Rightarrow> 'r provider list \<Rightarrow> 'r provider option" where
  "resolve_provider t ps =
     (case providers_of t ps of [] \<Rightarrow> None | q # qs \<Rightarrow> Some (last (q # qs)))"

text \<open>
  Modelled from the spec: the injector hierarchy is not among the sources. Each
  registration sits on an injector layer of its own; \<open>ancestors\<close> lists the layers
  above it, the nearest first. The dependency \<^verbatim>\<open>[Router, Optional, SkipSelf]\<close> of
  the guard is the Router ``resolved from an ancestor scope only'', \<^verbatim>\<open>null\<close> when
  no ancestor provides one. The Router of a layer is identified by the number of
  layers above that layer.
\<close>

fun ancestor_Router :: "'r ModuleWithProviders list \<Rightarrow> ref option" where
  "ancestor_Router [] = None"
| "ancestor_Router (m # ms) =
     (case resolve_provider Router (module_providers m) of
        Some p \<Rightarrow> Some (Ref (length ms))
      | None \<Rightarrow> ancestor_Router ms)"

text \<open>
  Modelled from the spec: a layer runs the guard factory when the registration on it
  declares \<^verbatim>\<open>ROUTER_FORROOT_GUARD\<close>; a registration without the declaration runs no
  factory on its layer (the constructor parameter of \<^verbatim>\<open>RouterModule\<close> is optional).
\<close>

definition instantiate_guard ::
    "'r ModuleWithProviders list \<Rightarrow> 'r ModuleWithProviders \<Rightarrow> error + string option" where
  "instantiate_guard ancestors m =
     (case resolve_provider ROUTER_FORROOT_GUARD (module_providers m) of
        None \<Rightarrow> Inr None
      | Some g \<Rightarrow>
          (case provideForRootGuard (ancestor_Router ancestors) of
             Inl e \<Rightarrow> Inl e
           | Inr v \<Rightarrow> Inr (Some v)))"

fun compose ::
    "'r ModuleWithProviders list \<Rightarrow> 'r ModuleWithProviders list \<Rightarrow> error + nat" where
  "compose ancestors [] = Inr (length ancestors)"
| "compose ancestors (m # ms) =
     (case instantiate_guard ancestors m of
        Inl e \<Rightarrow> Inl e
      | Inr v \<Rightarrow> compose (m # ancestors) ms)"

subsection \<open>The Router factory\<close>

datatype error_handler = defaultErrorHandler | CustomErrorHandler ref

datatype subscriber = TracingSubscriber | Subscriber nat

text \<open>
  Modelled from the spec: the class \<^verbatim>\<open>Router\<close> (\<^verbatim>\<open>./router\<close>) is not among the
  sources. Of a Router the module uses the constructor, the mutable \<^verbatim>\<open>errorHandler\<close>
  field (the constructor leaves the Router's default handler there) and the event
  stream, of which the record keeps the subscribers in subscription order.
\<close>

record 'r Router_obj =
  rootComponentType :: "ref option"
  serializer :: ref
  outlets :: ref
  locationService :: ref
  parentInjector :: ref
  moduleLoader :: ref
  moduleCompiler :: ref
  routeConfig :: "'r list"
  routerErrorHandler :: error_handler
  eventObservers :: "subscriber list"

definition Router_new ::
    "ref option \<Rightarrow> ref \<Rightarrow> ref \<Rightarrow> ref \<Rightarrow> ref \<Rightarrow> ref \<Rightarrow> ref \<Rightarrow> 'r list \<Rightarrow> 'r Router_obj" where
  "Router_new rootType urlSerializer outletMap location injector loader compiler routes =
     \<lparr>rootComponentType = rootType, serializer = urlSerializer, outlets = outletMap,
      locationService = location, parentInjector = injector, moduleLoader = loader,
      moduleCompiler = compiler, routeConfig = routes,
      routerErrorHandler = defaultErrorHandler, eventObservers = []\<rparr>"

text \<open>
  Modelled from the spec: \<^verbatim>\<open>flatten\<close> (\<^verbatim>\<open>./utils/collection\<close>) is not among the
  sources. ``Flattening N route-table contributions yields a sequence equal to their
  concatenation in registration order.''
\<close>

definition flatten :: "'a list list \<Rightarrow> 'a list" where
  "flatten a = concat a"

text \<open>
  \<^verbatim>\<open>setupRouter(ref, urlSerializer, outletMap, location, injector, loader, compiler,
  config, opts = {})\<close>. The handler of the options is a function, truthy when present.
  \<^verbatim>\<open>r.events.subscribe(..)\<close> adds the tracing callback to the subscribers.
\<close>

definition setupRouter ::
    "ref \<Rightarrow> ref \<Rightarrow> ref \<Rightarrow> ref \<Rightarrow> ref \<Rightarrow> ref \<Rightarrow> ref \<Rightarrow> 'r list list \<Rightarrow> ExtraOptions option
      \<Rightarrow> 'r Router_obj" where
  "setupRouter ref urlSerializer outletMap location injector loader compiler config opts =
     (let opts = (case opts of None \<Rightarrow> empty_options | Some v \<Rightarrow> v);
          r = Router_new None urlSerializer outletMap location injector loader compiler
                (flatten config);
          r = (case errorHandler opts of
                 Some h \<Rightarrow> r\<lparr>routerErrorHandler := CustomErrorHandler h\<rparr>
               | None \<Rightarrow> r);
          r = (if truthy (enableTracing opts)
               then r\<lparr>eventObservers := eventObservers r @ [TracingSubscriber]\<rparr>
               else r)
      in r)"

subsection \<open>The event stream and the tracing callback\<close>

record RouterEvent =
  constructor_name :: string
  toString :: string

datatype console_call =
    console_group string
  | console_log string
  | console_log_object RouterEvent
  | console_groupEnd

text \<open>
  A subscriber's callback runs with the event object it is handed, with the Router \<open>r\<close>
  (the closure is made inside \<^verbatim>\<open>setupRouter\<close>, where \<open>r\<close> is in scope) and with the
  console. It returns, leaving the three as it has made them, or it throws.
\<close>

datatype 'r callback_result =
    Returned RouterEvent "'r Router_obj" "console_call list"
  | Threw

text \<open>
  The callback that \<^verbatim>\<open>setupRouter\<close> subscribes. Its four statements are four console
  calls: a group named after the event's class, the event's string, the event itself,
  and the end of the group. It assigns neither to the event nor to \<open>r\<close>. The console
  has \<^verbatim>\<open>group\<close>, \<^verbatim>\<open>log\<close> and \<^verbatim>\<open>groupEnd\<close>, and an event is an object of an event
  class, so none of the statements throws.
\<close>

definition tracing_callback ::
    "RouterEvent \<Rightarrow> 'r Router_obj \<Rightarrow> console_call list \<Rightarrow> 'r callback_result" where
  "tracing_callback e r con =
     Returned e r
       (con @
        [console_group (''Router Event: '' @ constructor_name e),
         console_log (toString e),
         console_log_object e,
         console_groupEnd])"

text \<open>
  What can be observed of the stream: the console, and for every subscriber other than
  the tracing callback the events handed to it, logged in order of delivery with the
  number of the subscriber.
\<close>

record observation =
  console :: "console_call list"
  received :: "(nat \<times> RouterEvent) list"

definition no_observation :: observation where
  "no_observation = \<lparr>console = [], received = []\<rparr>"

datatype 'r delivery =
    Delivered RouterEvent "'r Router_obj" observation
  | Aborted "'r Router_obj" observation

text \<open>One subscriber is handed the event.\<close>

fun notify :: "subscriber \<Rightarrow> RouterEvent \<Rightarrow> 'r Router_obj \<Rightarrow> observation \<Rightarrow> 'r delivery" where
  "notify TracingSubscriber e r w =
     (case tracing_callback e r (console w) of
        Returned e' r' con \<Rightarrow> Delivered e' r' (w\<lparr>console := con\<rparr>)
      | Threw \<Rightarrow> Aborted r w)"
| "notify (Subscriber n) e r w = Delivered e r (w\<lparr>received := received w @ [(n, e)]\<rparr>)"

text \<open>
  Modelled from the spec: the event stream of the Router is not among the sources. It
  is a subject of rxjs: an emitted event object goes to the subscribers one after the
  other in subscription order, so a later subscriber is handed the object as an
  earlier one has left it, and a callback that throws ends the delivery, the exception
  reaching the code that emitted the event.
\<close>

fun deliver :: "subscriber list \<Rightarrow> RouterEvent \<Rightarrow> 'r Router_obj \<Rightarrow> observation \<Rightarrow> 'r delivery" where
  "deliver [] e r w = Delivered e r w"
| "deliver (s # ss) e r w =
     (case notify s e r w of
        Delivered e' r' w' \<Rightarrow> deliver ss e' r' w'
      | Aborted r' w' \<Rightarrow> Aborted r' w')"

definition subscribe :: "nat \<Rightarrow> 'r Router_obj \<Rightarrow> 'r Router_obj" where
  "subscribe n r = r\<lparr>eventObservers := eventObservers r @ [Subscriber n]\<rparr>"

text \<open>
  The route-matching engine is not among the sources; the navigation below takes it as
  a parameter \<open>eng\<close>, any function at all. In each step it sees its own state, what the
  stream gave back for the event it emitted last, and the Router without the list of
  the subscribers of the stream (which belongs to the subject); it either emits an
  event or finishes with an outcome.
\<close>

datatype feedback = Start | Passed RouterEvent | Raised

datatype ('st, 'o) engine_step = Emit RouterEvent 'st | Finish 'o

definition engine_view :: "'r Router_obj \<Rightarrow> 'r Router_obj" where
  "engine_view r = r\<lparr>eventObservers := []\<rparr>"

record ('r, 'o) navigation =
  nav_outcome :: "'o option"
  nav_events :: "RouterEvent list"
  nav_router :: "'r Router_obj"
  nav_observed :: observation

text \<open>
  A navigation of at most \<open>k\<close> steps of the engine: the outcome (\<open>None\<close> when the engine
  has not finished within \<open>k\<close> steps), the events emitted, in emission order, the
  Router and what has been observed.
\<close>

fun navigate ::
    "nat \<Rightarrow> ('st \<Rightarrow> feedback \<Rightarrow> 'r Router_obj \<Rightarrow> ('st, 'o) engine_step) \<Rightarrow> 'st \<Rightarrow> feedback
      \<Rightarrow> 'r Router_obj \<Rightarrow> observation \<Rightarrow> ('r, 'o) navigation" where
  "navigate 0 eng st fb r w =
     \<lparr>nav_outcome = None, nav_events = [], nav_router = r, nav_observed = w\<rparr>"
| "navigate (Suc k) eng st fb r w =
     (case eng st fb (engine_view r) of
        Finish out \<Rightarrow>
          \<lparr>nav_outcome = Some out, nav_events = [], nav_router = r, nav_observed = w\<rparr>
      | Emit e st' \<Rightarrow>
          (let rest =
             (case deliver (eventObservers r) e r w of
                Delivered e' r' w' \<Rightarrow> navigate k eng st' (Passed e') r' w'
              | Aborted r' w' \<Rightarrow> navigate k eng st' Raised r' w')
           in rest\<lparr>nav_events := e # nav_events rest\<rparr>))"

subsection \<open>The startup coordinator: \<open>RouterInitializer\<close>\<close>

text \<open>
  A \<^verbatim>\<open>Subject\<close> of rxjs, by its contract: \<^verbatim>\<open>next\<close> passes a value on unless the
  subject has stopped, \<^verbatim>\<open>complete\<close> stops it. \<open>delivered\<close> lists the values passed
  on, in order.
\<close>

record 'a Subject =
  delivered :: "'a list"
  isStopped :: bool

definition Subject_new :: "'a Subject" where
  "Subject_new = \<lparr>delivered = [], isStopped = False\<rparr>"

definition Subject_next :: "'a \<Rightarrow> 'a Subject \<Rightarrow> 'a Subject" where
  "Subject_next v sb = (if isStopped sb then sb else sb\<lparr>delivered := delivered sb @ [v]\<rparr>)"

definition Subject_complete :: "'a Subject \<Rightarrow> 'a Subject" where
  "Subject_complete sb = sb\<lparr>isStopped := True\<rparr>"

text \<open>
  A promise is pending until it is settled; the resolver of a settled promise does
  nothing. \<open>promises\<close> below is the store of the promises that \<^verbatim>\<open>appInitializer\<close>
  has returned, in call order.
\<close>

datatype promise_state = Pending | Fulfilled | Rejected

definition resolve :: "nat \<Rightarrow> promise_state list \<Rightarrow> promise_state list" where
  "resolve i ps = (if i < length ps \<and> ps ! i = Pending then ps[i := Fulfilled] else ps)"

datatype call =
    setUpLocationChangeListener
  | initialNavigation_call
  | setUpPreloading
  | resetRootComponentType "ref option"

text \<open>
  The state the two hooks work on: the two fields of the \<^verbatim>\<open>RouterInitializer\<close>
  (\<open>initSnapshot\<close> starts \<^verbatim>\<open>undefined\<close>, that is \<open>None\<close>), the slot
  \<^verbatim>\<open>router.hooks.afterPreactivation\<close> (\<open>Some i\<close> is the closure that the call of
  \<^verbatim>\<open>appInitializer\<close> returning promise \<open>i\<close> has installed, which holds the resolver
  of that promise; \<open>None\<close> is the Router's own hook), the promises, and the calls made
  on the Router and on the preloader, in order. A snapshot is an object, hence truthy.
\<close>

record 's system =
  initSnapshot :: "'s option"
  resultOfPreactivationDone :: "'s option Subject"
  hooks_afterPreactivation :: "nat option"
  promises :: "promise_state list"
  calls :: "call list"

definition init_system :: "'s system" where
  "init_system =
     \<lparr>initSnapshot = None, resultOfPreactivationDone = Subject_new,
      hooks_afterPreactivation = None, promises = [], calls = []\<rparr>"

text \<open>
  The outcome of the promise \<^verbatim>\<open>LOCATION_INITIALIZED\<close>, when the host provides one;
  without one the injector hands out a promise that is resolved already.
\<close>

datatype location_signal = Ready | Failed | Never

text \<open>
  \<^verbatim>\<open>appInitializer()\<close>, given what the injector holds for \<^verbatim>\<open>LOCATION_INITIALIZED\<close>
  and \<^verbatim>\<open>ROUTER_CONFIGURATION\<close>. The body after \<^verbatim>\<open>p.then\<close> runs once the signal is
  fulfilled; the returned promise is then the promise \<^verbatim>\<open>res\<close> of the body. A failed
  signal rejects the returned promise. The result is the index of the returned promise
  and the new state.
\<close>

definition appInitializer ::
    "location_signal option \<Rightarrow> ExtraOptions \<Rightarrow> 's system \<Rightarrow> nat \<times> 's system" where
  "appInitializer loc opts w =
     (let res = length (promises w) in
      case (case loc of None \<Rightarrow> Ready | Some p \<Rightarrow> p) of
        Failed \<Rightarrow> (res, w\<lparr>promises := promises w @ [Rejected]\<rparr>)
      | Never \<Rightarrow> (res, w\<lparr>promises := promises w @ [Pending]\<rparr>)
      | Ready \<Rightarrow>
          (if initialNavigation opts = Some False
           then (res, w\<lparr>promises := promises w @ [Pending],
                         calls := calls w @ [setUpLocationChangeListener]\<rparr>)
           else (res, w\<lparr>promises := promises w @ [Pending],
                         hooks_afterPreactivation := Some res,
                         calls := calls w @ [initialNavigation_call]\<rparr>)))"

text \<open>
  What an invocation of the hook returns: the subject \<^verbatim>\<open>resultOfPreactivationDone\<close>,
  the observable \<^verbatim>\<open>of (s)\<close>, or whatever the Router's own hook returns.
\<close>

datatype 's hook_result = returns_Subject | returns_of 's | router_default

text \<open>The closure installed by \<^verbatim>\<open>appInitializer\<close>; \<open>res\<close> is the promise it resolves.\<close>

definition afterPreactivation :: "nat \<Rightarrow> 's \<Rightarrow> 's system \<Rightarrow> 's hook_result \<times> 's system" where
  "afterPreactivation res s w =
     (if initSnapshot w = None
      then (returns_Subject,
            w\<lparr>initSnapshot := Some s, promises := resolve res (promises w)\<rparr>)
      else (returns_of s, w))"

text \<open>The Router invokes whatever the slot holds.\<close>

definition invoke_hook :: "'s \<Rightarrow> 's system \<Rightarrow> 's hook_result \<times> 's system" where
  "invoke_hook s w =
     (case hooks_afterPreactivation w of
        None \<Rightarrow> (router_default, w)
      | Some res \<Rightarrow> afterPreactivation res s w)"

record ApplicationRef_obj =
  components :: "ref list"
  componentTypes :: "ref list"

text \<open>\<^verbatim>\<open>xs[0]\<close>: \<^verbatim>\<open>undefined\<close> (\<open>None\<close>) on an empty array.\<close>

definition index0 :: "'a list \<Rightarrow> 'a option" where
  "index0 xs = (case xs of [] \<Rightarrow> None | x # _ \<Rightarrow> Some x)"

text \<open>
  \<^verbatim>\<open>bootstrapListener(bootstrappedComponentRef)\<close>, given the \<^verbatim>\<open>ApplicationRef\<close> the
  injector holds at the time of the call.
\<close>

definition bootstrapListener :: "ApplicationRef_obj \<Rightarrow> ref \<Rightarrow> 's system \<Rightarrow> 's system" where
  "bootstrapListener ref bootstrappedComponentRef w =
     (if Some bootstrappedComponentRef \<noteq> index0 (components ref) then w
      else w\<lparr>calls := calls w @
                 [setUpPreloading, resetRootComponentType (index0 (componentTypes ref))],
              resultOfPreactivationDone :=
                 Subject_complete
                   (Subject_next (initSnapshot w) (resultOfPreactivationDone w))\<rparr>)"

subsection \<open>Runs of the startup protocol\<close>

datatype 's event =
    AppInitializer "location_signal option" ExtraOptions
  | HookFires 's
  | BootstrapListener ApplicationRef_obj ref

fun step :: "'s event \<Rightarrow> 's system \<Rightarrow> 's system" where
  "step (AppInitializer loc opts) w = snd (appInitializer loc opts w)"
| "step (HookFires s) w = snd (invoke_hook s w)"
| "step (BootstrapListener ref c) w = bootstrapListener ref c w"

fun exec :: "'s event list \<Rightarrow> 's system \<Rightarrow> 's system" where
  "exec [] w = w"
| "exec (e # es) w = exec es (step e w)"

text \<open>
  The ordering the host keeps: it attaches the first view, and so calls the late-phase
  hook, only after the promises of the early-phase hook have been fulfilled (a rejected
  one is fatal to the bootstrap). Calls of the early-phase hook and navigations are
  not restricted.
\<close>

definition startup_done :: "'s system \<Rightarrow> bool" where
  "startup_done w = (promises w \<noteq> [] \<and> list_all (\<lambda>p. p = Fulfilled) (promises w))"

fun permitted :: "'s event \<Rightarrow> 's system \<Rightarrow> bool" where
  "permitted (BootstrapListener ref c) w = startup_done w"
| "permitted (AppInitializer loc opts) w = True"
| "permitted (HookFires s) w = True"

fun permitted_run :: "'s event list \<Rightarrow> 's system \<Rightarrow> bool" where
  "permitted_run [] w = True"
| "permitted_run (e # es) w = (permitted e w \<and> permitted_run es (step e w))"

text \<open>The snapshots of the navigations of a run, in order.\<close>

fun snapshots :: "'s event list \<Rightarrow> 's list" where
  "snapshots [] = []"
| "snapshots (HookFires s # es) = s # snapshots es"
| "snapshots (e # es) = snapshots es"

fun is_AppInitializer :: "'s event \<Rightarrow> bool" where
  "is_AppInitializer (AppInitializer loc opts) = True"
| "is_AppInitializer e = False"

definition resolved :: "'a Subject \<Rightarrow> bool" where
  "resolved sb = (isStopped sb \<or> delivered sb \<noteq> [])"

text \<open>
  What holds in every state the protocol reaches under the host's ordering: a fulfilled
  promise means the snapshot has been captured, and a resolved subject is stopped and
  has passed on exactly the captured snapshot.
\<close>

definition coordinator_inv :: "'s system \<Rightarrow> bool" where
  "coordinator_inv w =
     ((Fulfilled \<in> set (promises w) \<longrightarrow> initSnapshot w \<noteq> None) \<and>
      (resolved (resultOfPreactivationDone w) \<longrightarrow>
         isStopped (resultOfPreactivationDone w) \<and> initSnapshot w \<noteq> None \<and>
         delivered (resultOfPreactivationDone w) = [initSnapshot w]))"

section \<open>Properties of the provisioning functions\<close>

lemmas provider_defs = module_providers_def forRoot_def forChild_def ROUTER_PROVIDERS_def
  provideRoutes_def provideRouterInitializer_def type_provider_def

lemma forChild_declares_no_guard:
  "resolve_provider ROUTER_FORROOT_GUARD (module_providers (forChild rs)) = None"
  by (simp add: resolve_provider_def providers_of_def provider_defs)

lemma forRoot_declares_guard_and_Router:
  "resolve_provider ROUTER_FORROOT_GUARD (module_providers (forRoot rs cfg)) \<noteq> None"
  "resolve_provider Router (module_providers (forRoot rs cfg)) \<noteq> None"
  by (simp_all add: resolve_provider_def providers_of_def provider_defs)

lemma compose_children:
  "compose ancestors (map forChild children) = Inr (length ancestors + length children)"
  by (induction children arbitrary: ancestors)
     (simp_all add: instantiate_guard_def forChild_declares_no_guard)

text \<open>
  C5. The guard factory throws its error for every Router it is given and returns the
  marker \<^verbatim>\<open>'guarded'\<close> for \<^verbatim>\<open>null\<close>. A child registration declares neither the guard
  nor a Router, so a root registration followed by any number of child registrations
  composes without an error, whereas a second root registration below the first one
  fails with the guard's error.
\<close>

theorem provideForRootGuard_duplicate_root:
  "provideForRootGuard (Some router) = Inl (Error
      ''RouterModule.forRoot() called twice. Lazy loaded modules should use RouterModule.forChild() instead.'')
   \<and> provideForRootGuard None = Inr ''guarded''
   \<and> providers_of ROUTER_FORROOT_GUARD (module_providers (forChild rs)) = []
   \<and> providers_of Router (module_providers (forChild rs)) = []
   \<and> compose [] (forRoot routes config # map forChild children) = Inr (Suc (length children))
   \<and> compose [] [forRoot routes config, forRoot routes' config'] = Inl (Error
      ''RouterModule.forRoot() called twice. Lazy loaded modules should use RouterModule.forChild() instead.'')"
proof -
  have children: "compose [] (forRoot routes config # map forChild children) =
      Inr (Suc (length children))"
    using forRoot_declares_guard_and_Router(1)[of routes config]
    by (auto simp: provideForRootGuard_def compose_children instantiate_guard_def
        split: option.splits)
  have twice: "compose [] [forRoot routes config, forRoot routes' config'] = Inl (Error
      ''RouterModule.forRoot() called twice. Lazy loaded modules should use RouterModule.forChild() instead.'')"
    using forRoot_declares_guard_and_Router[of routes config]
      forRoot_declares_guard_and_Router[of routes' config']
    by (auto simp: provideForRootGuard_def instantiate_guard_def split: option.splits)
  have none: "providers_of ROUTER_FORROOT_GUARD (module_providers (forChild rs)) = []"
    "providers_of Router (module_providers (forChild rs)) = []"
    by (simp_all add: providers_of_def provider_defs)
  from children twice none show ?thesis
    by (simp add: provideForRootGuard_def)
qed

text \<open>
  C6. For every platform location, base href and options: the strategy is the hash
  strategy on the given platform location and base href when \<^verbatim>\<open>useHash\<close> is \<^verbatim>\<open>true\<close>,
  and the path strategy on them when it is \<^verbatim>\<open>false\<close> or absent, or when no options
  are passed. The result is a function of the three arguments alone.
\<close>

theorem provideLocationStrategy_by_useHash:
  "provideLocationStrategy pl baseHref (Some opts) =
     (if useHash opts = Some True then HashLocationStrategy pl baseHref
      else PathLocationStrategy pl baseHref)
   \<and> provideLocationStrategy pl baseHref (Some (opts\<lparr>useHash := Some True\<rparr>)) =
       HashLocationStrategy pl baseHref
   \<and> provideLocationStrategy pl baseHref (Some (opts\<lparr>useHash := Some False\<rparr>)) =
       PathLocationStrategy pl baseHref
   \<and> provideLocationStrategy pl baseHref (Some (opts\<lparr>useHash := None\<rparr>)) =
       PathLocationStrategy pl baseHref
   \<and> provideLocationStrategy pl baseHref None = PathLocationStrategy pl baseHref"
  by (auto simp: provideLocationStrategy_def truthy_def empty_options_def split: option.splits)

text \<open>
  C7. The provider list of \<^verbatim>\<open>forRoot\<close> declares \<^verbatim>\<open>PreloadingStrategy\<close> exactly once,
  as an alias of the configured strategy when the config supplies one and of
  \<^verbatim>\<open>NoPreloading\<close> when the config supplies none or is absent. The alias is a value in
  the list that \<^verbatim>\<open>forRoot\<close> returns.
\<close>

theorem forRoot_PreloadingStrategy:
  "providers_of PreloadingStrategy
       (module_providers (forRoot routes (Some (c\<lparr>preloadingStrategy := Some s\<rparr>)))) =
     [\<lparr>provide = PreloadingStrategy, multi = False, recipe = UseExisting s\<rparr>]
   \<and> providers_of PreloadingStrategy
       (module_providers (forRoot routes (Some (c\<lparr>preloadingStrategy := None\<rparr>)))) =
     [\<lparr>provide = PreloadingStrategy, multi = False, recipe = UseExisting NoPreloading\<rparr>]
   \<and> providers_of PreloadingStrategy (module_providers (forRoot routes None)) =
     [\<lparr>provide = PreloadingStrategy, multi = False, recipe = UseExisting NoPreloading\<rparr>]"
  by (simp add: providers_of_def provider_defs)

section \<open>Properties of the Router factory\<close>

lemma setupRouter_observers:
  "eventObservers (setupRouter ref us om loc injr ld cp config opts) =
     (if truthy (enableTracing (case opts of None \<Rightarrow> empty_options | Some v \<Rightarrow> v))
      then [TracingSubscriber] else [])"
  by (simp add: setupRouter_def Router_new_def Let_def split: option.splits)

text \<open>
  C8. The Router that \<^verbatim>\<open>setupRouter\<close> returns holds the concatenation of the route
  tables it was given, in their order. Its error handler is the handler of the options
  when they have one, and the Router's default handler when they have none or when no
  options are passed.
\<close>

theorem setupRouter_wiring:
  "routeConfig (setupRouter ref us om loc injr ld cp config opts) = concat config
   \<and> routerErrorHandler
       (setupRouter ref us om loc injr ld cp config (Some (xo\<lparr>errorHandler := Some h\<rparr>))) =
     CustomErrorHandler h
   \<and> routerErrorHandler
       (setupRouter ref us om loc injr ld cp config (Some (xo\<lparr>errorHandler := None\<rparr>))) =
     defaultErrorHandler
   \<and> routerErrorHandler (setupRouter ref us om loc injr ld cp config None) =
     defaultErrorHandler"
  by (simp add: setupRouter_def Router_new_def flatten_def empty_options_def Let_def
      split: option.splits)

lemma fold_subscribe:
  "fold subscribe ns r = r\<lparr>eventObservers := eventObservers r @ map Subscriber ns\<rparr>"
  by (induction ns arbitrary: r) (simp_all add: subscribe_def)

lemma deliver_Subscribers:
  "deliver (map Subscriber ns) e r w =
     Delivered e r (w\<lparr>received := received w @ map (\<lambda>n. (n, e)) ns\<rparr>)"
  by (induction ns arbitrary: w) simp_all

lemma deliver_traced:
  "deliver (TracingSubscriber # map Subscriber ns) e r w =
     Delivered e r
       (w\<lparr>console := console w @
             [console_group (''Router Event: '' @ constructor_name e),
              console_log (toString e), console_log_object e, console_groupEnd],
          received := received w @ map (\<lambda>n. (n, e)) ns\<rparr>)"
  by (simp add: tracing_callback_def deliver_Subscribers)

lemma navigate_untraced:
  assumes "eventObservers r = map Subscriber ns"
  shows "navigate k eng st fb r w =
     \<lparr>nav_outcome = nav_outcome (navigate k eng st fb (engine_view r) no_observation),
      nav_events = nav_events (navigate k eng st fb (engine_view r) no_observation),
      nav_router = r,
      nav_observed =
        w\<lparr>received := received w @
             concat (map (\<lambda>e. map (\<lambda>n. (n, e)) ns)
               (nav_events (navigate k eng st fb (engine_view r) no_observation)))\<rparr>\<rparr>"
proof (induction k arbitrary: st fb w)
  case 0
  show ?case by simp
next
  case (Suc k)
  have v: "engine_view (engine_view r) = engine_view r" "eventObservers (engine_view r) = []"
    by (simp_all add: engine_view_def)
  show ?case
  proof (cases "eng st fb (engine_view r)")
    case (Finish out)
    then show ?thesis by (simp add: v)
  next
    case (Emit e st')
    then show ?thesis
      by (simp add: v assms deliver_Subscribers Suc.IH[of st' "Passed e"] Let_def)
  qed
qed

lemma navigate_traced:
  assumes "eventObservers r = TracingSubscriber # map Subscriber ns"
  shows "navigate k eng st fb r w =
     \<lparr>nav_outcome = nav_outcome (navigate k eng st fb (engine_view r) no_observation),
      nav_events = nav_events (navigate k eng st fb (engine_view r) no_observation),
      nav_router = r,
      nav_observed =
        w\<lparr>console := console w @
             concat (map (\<lambda>e. [console_group (''Router Event: '' @ constructor_name e),
                               console_log (toString e), console_log_object e, console_groupEnd])
               (nav_events (navigate k eng st fb (engine_view r) no_observation))),
          received := received w @
             concat (map (\<lambda>e. map (\<lambda>n. (n, e)) ns)
               (nav_events (navigate k eng st fb (engine_view r) no_observation)))\<rparr>\<rparr>"
proof (induction k arbitrary: st fb w)
  case 0
  show ?case by simp
next
  case (Suc k)
  have v: "engine_view (engine_view r) = engine_view r" "eventObservers (engine_view r) = []"
    by (simp_all add: engine_view_def)
  show ?case
  proof (cases "eng st fb (engine_view r)")
    case (Finish out)
    then show ?thesis by (simp add: v)
  next
    case (Emit e st')
    have d: "deliver (eventObservers r) e r w =
        Delivered e r
         (w\<lparr>console := console w @
             [console_group (''Router Event: '' @ constructor_name e),
              console_log (toString e), console_log_object e, console_groupEnd],
          received := received w @ map (\<lambda>n. (n, e)) ns\<rparr>)"
      by (simp only: assms deliver_traced)
    show ?thesis
      by (simp add: v Emit d Suc.IH[of st' "Passed e"] Let_def)
  qed
qed

text \<open>
  C9. Take the Router that \<^verbatim>\<open>setupRouter\<close> returns with \<^verbatim>\<open>enableTracing\<close> true and the
  one it returns with \<^verbatim>\<open>enableTracing\<close> false, subscribe the same subscribers to both,
  and let any engine run a navigation on each, from the same state. The navigation
  has the same outcome and emits the same events on both. Every other subscriber is
  handed the same events in the same order on both, namely each emitted event once,
  in emission order. With tracing the console gets, for each emitted event and in
  emission order, one group named \<^verbatim>\<open>Router Event:\<close> and the event's class, holding the
  event's string and the event itself; without tracing the console gets nothing. The
  navigation leaves both Routers as they were, and they differ in the subscriber list
  only.
\<close>

theorem tracing_subscription_passive:
  "nav_outcome (navigate k eng st fb (fold subscribe ns
       (setupRouter ref us om loc injr ld cp config (Some (opts\<lparr>enableTracing := Some True\<rparr>)))) w)
   = nav_outcome (navigate k eng st fb (fold subscribe ns
       (setupRouter ref us om loc injr ld cp config (Some (opts\<lparr>enableTracing := Some False\<rparr>)))) w)
   \<and> nav_events (navigate k eng st fb (fold subscribe ns
       (setupRouter ref us om loc injr ld cp config (Some (opts\<lparr>enableTracing := Some True\<rparr>)))) w)
   = nav_events (navigate k eng st fb (fold subscribe ns
       (setupRouter ref us om loc injr ld cp config (Some (opts\<lparr>enableTracing := Some False\<rparr>)))) w)
   \<and> received (nav_observed (navigate k eng st fb (fold subscribe ns
       (setupRouter ref us om loc injr ld cp config (Some (opts\<lparr>enableTracing := Some True\<rparr>)))) w))
   = received (nav_observed (navigate k eng st fb (fold subscribe ns
       (setupRouter ref us om loc injr ld cp config (Some (opts\<lparr>enableTracing := Some False\<rparr>)))) w))
   \<and> received (nav_observed (navigate k eng st fb (fold subscribe ns
       (setupRouter ref us om loc injr ld cp config (Some (opts\<lparr>enableTracing := Some True\<rparr>)))) w))
   = received w @ concat (map (\<lambda>e. map (\<lambda>n. (n, e)) ns)
       (nav_events (navigate k eng st fb (fold subscribe ns
         (setupRouter ref us om loc injr ld cp config (Some (opts\<lparr>enableTracing := Some True\<rparr>)))) w)))
   \<and> console (nav_observed (navigate k eng st fb (fold subscribe ns
       (setupRouter ref us om loc injr ld cp config (Some (opts\<lparr>enableTracing := Some True\<rparr>)))) w))
   = console w @ concat (map
       (\<lambda>e. [console_group (''Router Event: '' @ constructor_name e),
             console_log (toString e), console_log_object e, console_groupEnd])
       (nav_events (navigate k eng st fb (fold subscribe ns
         (setupRouter ref us om loc injr ld cp config (Some (opts\<lparr>enableTracing := Some True\<rparr>)))) w)))
   \<and> console (nav_observed (navigate k eng st fb (fold subscribe ns
       (setupRouter ref us om loc injr ld cp config (Some (opts\<lparr>enableTracing := Some False\<rparr>)))) w))
   = console w
   \<and> nav_router (navigate k eng st fb (fold subscribe ns
       (setupRouter ref us om loc injr ld cp config (Some (opts\<lparr>enableTracing := Some True\<rparr>)))) w)
   = (nav_router (navigate k eng st fb (fold subscribe ns
       (setupRouter ref us om loc injr ld cp config (Some (opts\<lparr>enableTracing := Some False\<rparr>)))) w))
     \<lparr>eventObservers := TracingSubscriber # map Subscriber ns\<rparr>
   \<and> nav_router (navigate k eng st fb (fold subscribe ns
       (setupRouter ref us om loc injr ld cp config (Some (opts\<lparr>enableTracing := Some False\<rparr>)))) w)
   = fold subscribe ns
       (setupRouter ref us om loc injr ld cp config (Some (opts\<lparr>enableTracing := Some False\<rparr>)))"
proof -
  let ?rT = "fold subscribe ns
       (setupRouter ref us om loc injr ld cp config (Some (opts\<lparr>enableTracing := Some True\<rparr>)))"
  let ?rF = "fold subscribe ns
       (setupRouter ref us om loc injr ld cp config (Some (opts\<lparr>enableTracing := Some False\<rparr>)))"
  let ?B = "navigate k eng st fb (engine_view ?rF) no_observation"
  have oT: "eventObservers ?rT = TracingSubscriber # map Subscriber ns"
    by (simp add: fold_subscribe setupRouter_observers truthy_def)
  have oF: "eventObservers ?rF = map Subscriber ns"
    by (simp add: fold_subscribe setupRouter_observers truthy_def)
  have eq: "?rT = ?rF\<lparr>eventObservers := TracingSubscriber # map Subscriber ns\<rparr>"
    by (simp add: fold_subscribe setupRouter_def Router_new_def Let_def truthy_def
        split: option.splits)
  have view: "engine_view ?rT = engine_view ?rF"
    by (subst eq) (simp add: engine_view_def)
  have T: "navigate k eng st fb ?rT w =
     \<lparr>nav_outcome = nav_outcome ?B, nav_events = nav_events ?B, nav_router = ?rT,
      nav_observed =
        w\<lparr>console := console w @
             concat (map (\<lambda>e. [console_group (''Router Event: '' @ constructor_name e),
                               console_log (toString e), console_log_object e, console_groupEnd])
               (nav_events ?B)),
          received := received w @ concat (map (\<lambda>e. map (\<lambda>n. (n, e)) ns) (nav_events ?B))\<rparr>\<rparr>"
    using navigate_traced[OF oT, of k eng st fb w] by (simp only: view)
  have F: "navigate k eng st fb ?rF w =
     \<lparr>nav_outcome = nav_outcome ?B, nav_events = nav_events ?B, nav_router = ?rF,
      nav_observed =
        w\<lparr>received := received w @ concat (map (\<lambda>e. map (\<lambda>n. (n, e)) ns) (nav_events ?B))\<rparr>\<rparr>"
    using navigate_untraced[OF oF, of k eng st fb w] .
  have r: "?rT = ?rF\<lparr>eventObservers := TracingSubscriber # map Subscriber ns\<rparr>" by (rule eq)
  show ?thesis
    unfolding T F by (simp add: r[symmetric])
qed

theorem tracing_subscription_passive_witness:
  "nav_outcome (navigate (Suc (Suc (Suc 0)))
      (\<lambda>st fb r. if st = (0::nat)
         then Emit \<lparr>constructor_name = ''NavigationStart'', toString = ''start''\<rparr> 1
         else if st = 1
         then Emit \<lparr>constructor_name = ''NavigationEnd'', toString = ''end''\<rparr> 2
         else Finish fb)
      0 Start
      (fold subscribe [7]
        (setupRouter (Ref 0) (Ref 1) (Ref 2) (Ref 3) (Ref 4) (Ref 5) (Ref 6) [[''a''], [''b'']]
          (Some (empty_options\<lparr>enableTracing := Some True\<rparr>))))
      no_observation)
   = Some (Passed \<lparr>constructor_name = ''NavigationEnd'', toString = ''end''\<rparr>)
   \<and> console (nav_observed (navigate (Suc (Suc (Suc 0)))
      (\<lambda>st fb r. if st = (0::nat)
         then Emit \<lparr>constructor_name = ''NavigationStart'', toString = ''start''\<rparr> 1
         else if st = 1
         then Emit \<lparr>constructor_name = ''NavigationEnd'', toString = ''end''\<rparr> 2
         else Finish fb)
      0 Start
      (fold subscribe [7]
        (setupRouter (Ref 0) (Ref 1) (Ref 2) (Ref 3) (Ref 4) (Ref 5) (Ref 6) [[''a''], [''b'']]
          (Some (empty_options\<lparr>enableTracing := Some True\<rparr>))))
      no_observation))
   = [console_group ''Router Event: NavigationStart'', console_log ''start'',
      console_log_object \<lparr>constructor_name = ''NavigationStart'', toString = ''start''\<rparr>,
      console_groupEnd,
      console_group ''Router Event: NavigationEnd'', console_log ''end'',
      console_log_object \<lparr>constructor_name = ''NavigationEnd'', toString = ''end''\<rparr>,
      console_groupEnd]
   \<and> received (nav_observed (navigate (Suc (Suc (Suc 0)))
      (\<lambda>st fb r. if st = (0::nat)
         then Emit \<lparr>constructor_name = ''NavigationStart'', toString = ''start''\<rparr> 1
         else if st = 1
         then Emit \<lparr>constructor_name = ''NavigationEnd'', toString = ''end''\<rparr> 2
         else Finish fb)
      0 Start
      (fold subscribe [7]
        (setupRouter (Ref 0) (Ref 1) (Ref 2) (Ref 3) (Ref 4) (Ref 5) (Ref 6) [[''a''], [''b'']]
          (Some (empty_options\<lparr>enableTracing := Some True\<rparr>))))
      no_observation))
   = [(7, \<lparr>constructor_name = ''NavigationStart'', toString = ''start''\<rparr>),
      (7, \<lparr>constructor_name = ''NavigationEnd'', toString = ''end''\<rparr>)]"
proof -
  let ?eng = "\<lambda>st fb (r :: string Router_obj). if st = (0::nat)
         then Emit \<lparr>constructor_name = ''NavigationStart'', toString = ''start''\<rparr> 1
         else if st = 1
         then Emit \<lparr>constructor_name = ''NavigationEnd'', toString = ''end''\<rparr> 2
         else Finish fb"
  let ?rF = "fold subscribe [7]
        (setupRouter (Ref 0) (Ref 1) (Ref 2) (Ref 3) (Ref 4) (Ref 5) (Ref 6) [[''a''], [''b'']]
          (Some (empty_options\<lparr>enableTracing := Some False\<rparr>)))"
  have F: "nav_outcome (navigate (Suc (Suc (Suc 0))) ?eng 0 Start ?rF no_observation) =
        Some (Passed \<lparr>constructor_name = ''NavigationEnd'', toString = ''end''\<rparr>)"
      "nav_events (navigate (Suc (Suc (Suc 0))) ?eng 0 Start ?rF no_observation) =
        [\<lparr>constructor_name = ''NavigationStart'', toString = ''start''\<rparr>,
         \<lparr>constructor_name = ''NavigationEnd'', toString = ''end''\<rparr>]"
    by (simp_all add: subscribe_def setupRouter_def Router_new_def empty_options_def truthy_def
        Let_def no_observation_def engine_view_def)
  have w: "console no_observation = []" "received no_observation = []"
    by (simp_all add: no_observation_def)
  note t = tracing_subscription_passive[of "Suc (Suc (Suc 0))" ?eng 0 Start "[7]"
      "Ref 0" "Ref 1" "Ref 2" "Ref 3" "Ref 4" "Ref 5" "Ref 6" "[[''a''], [''b'']]"
      empty_options no_observation]
  note out = t[THEN conjunct1]
  note ev = t[THEN conjunct2, THEN conjunct1]
  note rcv = t[THEN conjunct2, THEN conjunct2, THEN conjunct2, THEN conjunct1]
  note con = t[THEN conjunct2, THEN conjunct2, THEN conjunct2, THEN conjunct2, THEN conjunct1]
  show ?thesis
    unfolding out con rcv unfolding ev F w by simp
qed

text \<open>
  C10. For \<^verbatim>\<open>forRoot\<close> without a config: the provider list declares
  \<^verbatim>\<open>ROUTER_CONFIGURATION\<close> twice, first the baseline \<^verbatim>\<open>{enableTracing: false}\<close> of
  \<^verbatim>\<open>ROUTER_PROVIDERS\<close> and then \<^verbatim>\<open>{}\<close>, and the later one is the one in effect;
  \<^verbatim>\<open>PreloadingStrategy\<close> resolves to \<^verbatim>\<open>NoPreloading\<close>. On the options \<^verbatim>\<open>{}\<close> the Router
  gets no tracing subscriber and keeps its default error handler, the location strategy
  is the path strategy, and the early-phase hook installs the interception and starts
  the initial navigation.
\<close>

theorem forRoot_without_config:
  "map recipe (providers_of ROUTER_CONFIGURATION (module_providers (forRoot routes None))) =
     [UseValue_options (empty_options\<lparr>enableTracing := Some False\<rparr>),
      UseValue_options empty_options]
   \<and> resolve_provider ROUTER_CONFIGURATION (module_providers (forRoot routes None)) =
       Some \<lparr>provide = ROUTER_CONFIGURATION, multi = False,
             recipe = UseValue_options empty_options\<rparr>
   \<and> resolve_provider PreloadingStrategy (module_providers (forRoot routes None)) =
       Some \<lparr>provide = PreloadingStrategy, multi = False, recipe = UseExisting NoPreloading\<rparr>
   \<and> eventObservers (setupRouter ref us om loc injr ld cp config (Some empty_options)) = []
   \<and> routerErrorHandler (setupRouter ref us om loc injr ld cp config (Some empty_options)) =
       defaultErrorHandler
   \<and> provideLocationStrategy pl baseHref (Some empty_options) = PathLocationStrategy pl baseHref
   \<and> appInitializer None empty_options w =
       (length (promises w),
        w\<lparr>promises := promises w @ [Pending],
          hooks_afterPreactivation := Some (length (promises w)),
          calls := calls w @ [initialNavigation_call]\<rparr>)"
  by (simp add: resolve_provider_def providers_of_def provider_defs setupRouter_observers
      setupRouter_def Router_new_def provideLocationStrategy_def appInitializer_def
      truthy_def empty_options_def Let_def)

section \<open>Properties of the startup coordinator\<close>

lemma inv_init: "coordinator_inv init_system"
  by (simp add: coordinator_inv_def init_system_def resolved_def Subject_new_def)

lemma stopped_fixed:
  "isStopped sb \<Longrightarrow> Subject_complete (Subject_next v sb) = sb"
  by (simp add: Subject_complete_def Subject_next_def)

lemma inv_app:
  assumes "coordinator_inv w"
  shows "coordinator_inv (snd (appInitializer loc opts w))"
  using assms
    by (auto simp: coordinator_inv_def appInitializer_def Let_def
        split: option.splits location_signal.splits)

lemma inv_hook:
  assumes "coordinator_inv w"
  shows "coordinator_inv (snd (invoke_hook s w))"
  using assms
    by (auto simp: coordinator_inv_def invoke_hook_def afterPreactivation_def
        split: option.splits)

lemma bootstrapListener_fields:
  "initSnapshot (bootstrapListener ref c w) = initSnapshot w"
  "promises (bootstrapListener ref c w) = promises w"
  "hooks_afterPreactivation (bootstrapListener ref c w) = hooks_afterPreactivation w"
  by (simp_all add: bootstrapListener_def)

lemma bootstrapListener_subject:
  "resultOfPreactivationDone (bootstrapListener ref c w) =
     (if Some c = index0 (components ref)
      then Subject_complete (Subject_next (initSnapshot w) (resultOfPreactivationDone w))
      else resultOfPreactivationDone w)"
  by (simp add: bootstrapListener_def)

lemma complete_next:
  "Subject_complete (Subject_next v sb) =
     (if isStopped sb then sb else \<lparr>delivered = delivered sb @ [v], isStopped = True\<rparr>)"
  by (cases sb) (simp add: Subject_complete_def Subject_next_def)

lemma inv_boot:
  assumes "coordinator_inv w" "initSnapshot w \<noteq> None"
  shows "coordinator_inv (bootstrapListener ref c w)"
proof -
  let ?sb = "resultOfPreactivationDone w"
  show ?thesis
  proof (cases "isStopped ?sb \<or> Some c \<noteq> index0 (components ref)")
    case True
    then have "resultOfPreactivationDone (bootstrapListener ref c w) = ?sb"
      by (auto simp: bootstrapListener_subject complete_next)
    with assms show ?thesis
      by (simp add: coordinator_inv_def bootstrapListener_fields)
  next
    case False
    with assms(1) have "delivered ?sb = []"
      by (cases "delivered ?sb") (simp_all add: coordinator_inv_def resolved_def)
    with False have "resultOfPreactivationDone (bootstrapListener ref c w) =
        \<lparr>delivered = [initSnapshot w], isStopped = True\<rparr>"
      by (simp add: bootstrapListener_subject complete_next)
    with assms show ?thesis
      by (simp add: coordinator_inv_def bootstrapListener_fields resolved_def)
  qed
qed

lemma inv_step:
  assumes "coordinator_inv w" "permitted e w"
  shows "coordinator_inv (step e w)"
proof (cases e)
  case (AppInitializer loc opts)
  with assms show ?thesis by (simp add: inv_app)
next
  case (HookFires s)
  with assms show ?thesis by (simp add: inv_hook)
next
  case (BootstrapListener ref c)
  with assms have "initSnapshot w \<noteq> None"
    by (cases "promises w") (auto simp: coordinator_inv_def startup_done_def)
  with assms BootstrapListener show ?thesis
    by (simp add: inv_boot)
qed

lemma inv_exec:
  "coordinator_inv w \<Longrightarrow> permitted_run es w \<Longrightarrow> coordinator_inv (exec es w)"
  by (induction es arbitrary: w) (simp_all add: inv_step)

lemma permitted_run_append:
  "permitted_run (pre @ post) w = (permitted_run pre w \<and> permitted_run post (exec pre w))"
  by (induction pre arbitrary: w) simp_all

lemma exec_append: "exec (pre @ post) w = exec post (exec pre w)"
  by (induction pre arbitrary: w) simp_all

lemma step_keeps_snapshot:
  "initSnapshot w = Some s \<Longrightarrow> initSnapshot (step e w) = Some s"
  by (cases e) (auto simp: appInitializer_def Let_def invoke_hook_def afterPreactivation_def
      bootstrapListener_fields split: option.splits location_signal.splits)

lemma exec_keeps_snapshot:
  "initSnapshot w = Some s \<Longrightarrow> initSnapshot (exec es w) = Some s"
  by (induction es arbitrary: w) (simp_all add: step_keeps_snapshot)

lemma step_keeps_stopped:
  "isStopped (resultOfPreactivationDone w) \<Longrightarrow>
   resultOfPreactivationDone (step e w) = resultOfPreactivationDone w"
  by (cases e) (auto simp: appInitializer_def Let_def invoke_hook_def afterPreactivation_def
      bootstrapListener_subject stopped_fixed split: option.splits location_signal.splits)

lemma exec_keeps_stopped:
  "isStopped (resultOfPreactivationDone w) \<Longrightarrow>
   resultOfPreactivationDone (exec es w) = resultOfPreactivationDone w"
  by (induction es arbitrary: w) (simp_all add: step_keeps_stopped)

text \<open>
  C2. In every run from the initial state that keeps the host's ordering, whatever the
  interleaving of early-phase calls, navigations and late-phase calls: the subject
  passes on at most one value; and as soon as it is resolved (after any prefix of the
  run) the snapshot has been captured, the subject is stopped and has passed on exactly
  that snapshot, and neither the snapshot nor the subject changes in the rest of the run.
\<close>

theorem resolved_once_after_capture:
  assumes "permitted_run (pre @ post) (init_system :: 's system)"
  shows "length (delivered (resultOfPreactivationDone (exec (pre @ post) (init_system :: 's system)))) \<le> 1
    \<and> (resolved (resultOfPreactivationDone (exec pre (init_system :: 's system))) \<longrightarrow>
         (\<exists>s. initSnapshot (exec pre (init_system :: 's system)) = Some s
            \<and> initSnapshot (exec (pre @ post) (init_system :: 's system)) = Some s
            \<and> resultOfPreactivationDone (exec pre (init_system :: 's system))
                = \<lparr>delivered = [Some s], isStopped = True\<rparr>
            \<and> resultOfPreactivationDone (exec (pre @ post) (init_system :: 's system))
                = \<lparr>delivered = [Some s], isStopped = True\<rparr>))"
proof -
  let ?w = "exec pre (init_system :: 's system)"
  let ?w' = "exec (pre @ post) (init_system :: 's system)"
  from assms have p: "permitted_run pre (init_system :: 's system)"
    by (simp add: permitted_run_append)
  have i: "coordinator_inv ?w" using inv_init p by (rule inv_exec)
  have i': "coordinator_inv ?w'" using inv_init assms by (rule inv_exec)
  have len: "length (delivered (resultOfPreactivationDone ?w')) \<le> 1"
    using i' by (cases "delivered (resultOfPreactivationDone ?w')")
      (auto simp: coordinator_inv_def resolved_def)
  have rest: "\<exists>s. initSnapshot ?w = Some s \<and> initSnapshot ?w' = Some s
      \<and> resultOfPreactivationDone ?w = \<lparr>delivered = [Some s], isStopped = True\<rparr>
      \<and> resultOfPreactivationDone ?w' = \<lparr>delivered = [Some s], isStopped = True\<rparr>"
    if r: "resolved (resultOfPreactivationDone ?w)"
  proof -
    from i r obtain s where s: "initSnapshot ?w = Some s"
      and st: "isStopped (resultOfPreactivationDone ?w)"
      and d: "delivered (resultOfPreactivationDone ?w) = [Some s]"
      by (auto simp: coordinator_inv_def)
    have "initSnapshot ?w' = Some s"
      using exec_keeps_snapshot[OF s] by (simp add: exec_append)
    moreover have "resultOfPreactivationDone ?w' = resultOfPreactivationDone ?w"
      using exec_keeps_stopped[OF st] by (simp add: exec_append)
    moreover have "resultOfPreactivationDone ?w = \<lparr>delivered = [Some s], isStopped = True\<rparr>"
      using st d by (cases "resultOfPreactivationDone ?w") simp
    ultimately show ?thesis using s by simp
  qed
  from len rest show ?thesis by blast
qed

theorem resolved_once_after_capture_witness:
  "permitted_run
     ([AppInitializer None empty_options, HookFires (1::nat),
       BootstrapListener \<lparr>components = [Ref 0], componentTypes = [Ref 7]\<rparr> (Ref 0)] @
      [HookFires 2,
       BootstrapListener \<lparr>components = [Ref 0], componentTypes = [Ref 7]\<rparr> (Ref 0)])
     init_system
   \<and> resolved (resultOfPreactivationDone
       (exec [AppInitializer None empty_options, HookFires (1::nat),
              BootstrapListener \<lparr>components = [Ref 0], componentTypes = [Ref 7]\<rparr> (Ref 0)]
          init_system))
   \<and> resultOfPreactivationDone
       (exec ([AppInitializer None empty_options, HookFires (1::nat),
               BootstrapListener \<lparr>components = [Ref 0], componentTypes = [Ref 7]\<rparr> (Ref 0)] @
              [HookFires 2,
               BootstrapListener \<lparr>components = [Ref 0], componentTypes = [Ref 7]\<rparr> (Ref 0)])
          init_system) = \<lparr>delivered = [Some 1], isStopped = True\<rparr>"
proof -
  let ?pre = "[AppInitializer None empty_options, HookFires (1::nat),
       BootstrapListener \<lparr>components = [Ref 0], componentTypes = [Ref 7]\<rparr> (Ref 0)]"
  let ?post = "[HookFires (2::nat),
       BootstrapListener \<lparr>components = [Ref 0], componentTypes = [Ref 7]\<rparr> (Ref 0)]"
  have pre: "exec ?pre init_system =
      \<lparr>initSnapshot = Some 1, resultOfPreactivationDone = \<lparr>delivered = [Some 1], isStopped = True\<rparr>,
       hooks_afterPreactivation = Some 0, promises = [Fulfilled],
       calls = [initialNavigation_call, setUpPreloading, resetRootComponentType (Some (Ref 7))]\<rparr>"
    by (simp add: appInitializer_def empty_options_def init_system_def invoke_hook_def
        afterPreactivation_def resolve_def bootstrapListener_def index0_def Subject_new_def
        Subject_next_def Subject_complete_def)
  have p: "permitted_run (?pre @ ?post) (init_system :: nat system)"
    by (simp add: appInitializer_def empty_options_def init_system_def invoke_hook_def
        afterPreactivation_def resolve_def bootstrapListener_def index0_def Subject_new_def
        Subject_next_def Subject_complete_def startup_done_def)
  have r: "resolved (resultOfPreactivationDone (exec ?pre (init_system :: nat system)))"
    by (simp only: pre) (simp add: resolved_def)
  from resolved_once_after_capture[OF p] r pre p show ?thesis
    by auto
qed

lemma appInitializer_installs:
  assumes "appInitializer loc opts (init_system :: 's system) = (p, w0)"
    and "hooks_afterPreactivation w0 \<noteq> None"
  shows "p = 0 \<and> w0 = init_system\<lparr>promises := [Pending], hooks_afterPreactivation := Some 0,
            calls := [initialNavigation_call]\<rparr>"
  using assms
  by (auto simp: appInitializer_def init_system_def Let_def
      split: option.splits location_signal.splits if_splits)

lemma step_after_capture:
  assumes "hooks_afterPreactivation w = Some i" "initSnapshot w = Some s1" "\<not> is_AppInitializer e"
  shows "hooks_afterPreactivation (step e w) = Some i \<and> initSnapshot (step e w) = Some s1
     \<and> promises (step e w) = promises w"
  using assms
  by (cases e) (simp_all add: invoke_hook_def afterPreactivation_def bootstrapListener_fields)

lemma exec_after_capture:
  assumes "hooks_afterPreactivation w = Some i" "initSnapshot w = Some s1"
    "list_all (\<lambda>e. \<not> is_AppInitializer e) es"
  shows "hooks_afterPreactivation (exec es w) = Some i \<and> initSnapshot (exec es w) = Some s1
     \<and> promises (exec es w) = promises w"
  using assms
proof (induction es arbitrary: w)
  case Nil
  then show ?case by simp
next
  case (Cons e es)
  from Cons.prems have "hooks_afterPreactivation (step e w) = Some i \<and> initSnapshot (step e w) = Some s1
     \<and> promises (step e w) = promises w"
    by (intro step_after_capture) simp_all
  with Cons.IH[of "step e w"] Cons.prems show ?case by simp
qed

lemma exec_before_capture:
  assumes "hooks_afterPreactivation w = Some i" "initSnapshot w = None"
    "list_all (\<lambda>e. \<not> is_AppInitializer e) es"
  shows "hooks_afterPreactivation (exec es w) = Some i \<and>
     (case snapshots es of
        [] \<Rightarrow> initSnapshot (exec es w) = None \<and> promises (exec es w) = promises w
      | s1 # rest \<Rightarrow> initSnapshot (exec es w) = Some s1
           \<and> promises (exec es w) = resolve i (promises w))"
  using assms
proof (induction es arbitrary: w)
  case Nil
  then show ?case by simp
next
  case (Cons e es)
  show ?case
  proof (cases e)
    case (AppInitializer loc opts)
    with Cons.prems show ?thesis by simp
  next
    case (HookFires s)
    let ?w = "step e w"
    from HookFires Cons.prems have w: "hooks_afterPreactivation ?w = Some i"
      "initSnapshot ?w = Some s" "promises ?w = resolve i (promises w)"
      by (simp_all add: invoke_hook_def afterPreactivation_def)
    from Cons.prems have "list_all (\<lambda>e. \<not> is_AppInitializer e) es" by simp
    from exec_after_capture[OF w(1) w(2) this] w(3) HookFires show ?thesis by simp
  next
    case (BootstrapListener ref c)
    let ?w = "step e w"
    from BootstrapListener Cons.prems have w: "hooks_afterPreactivation ?w = Some i"
      "initSnapshot ?w = None" "promises ?w = promises w"
      by (simp_all add: bootstrapListener_fields)
    from Cons.prems have "list_all (\<lambda>e. \<not> is_AppInitializer e) es" by simp
    from Cons.IH[OF w(1) w(2) this] w(3) BootstrapListener show ?thesis
      by (cases "snapshots es") simp_all
  qed
qed

text \<open>
  C1. Take a run in which the early-phase hook has installed the interception, followed
  by any navigations and late-phase calls \<open>es\<close> (and no second early-phase call). If no
  navigation has reached the hook in \<open>es\<close>, the next invocation, with snapshot \<open>s\<close>,
  captures \<open>s\<close>, fulfils the promise of the early-phase hook and returns the subject. If
  navigations have reached it, the first with snapshot \<open>s1\<close>, then the captured
  snapshot is \<open>s1\<close>, the promise is fulfilled, and the next invocation returns
  \<^verbatim>\<open>of (s)\<close> and leaves the whole state as it is.
\<close>

theorem interception_captures_first_only:
  assumes "appInitializer loc opts (init_system :: 's system) = (p, w0)"
    and "hooks_afterPreactivation w0 \<noteq> None"
    and "list_all (\<lambda>e. \<not> is_AppInitializer e) es"
  shows "promises w0 = [Pending] \<and> initSnapshot w0 = None \<and>
     (case snapshots es of
        [] \<Rightarrow>
          invoke_hook s (exec es w0) =
            (returns_Subject, (exec es w0)\<lparr>initSnapshot := Some s, promises := [Fulfilled]\<rparr>)
      | s1 # rest \<Rightarrow>
          invoke_hook s (exec es w0) = (returns_of s, exec es w0)
          \<and> initSnapshot (exec es w0) = Some s1
          \<and> promises (exec es w0) = [Fulfilled])"
proof -
  from appInitializer_installs[OF assms(1,2)]
  have w0: "hooks_afterPreactivation w0 = Some 0" "initSnapshot w0 = None" "promises w0 = [Pending]"
    by (simp_all add: init_system_def)
  from exec_before_capture[OF w0(1) w0(2) assms(3)] w0(3)
  show ?thesis
    using w0 by (cases "snapshots es") (simp_all add: invoke_hook_def afterPreactivation_def resolve_def)
qed

theorem interception_captures_first_only_witness:
  "invoke_hook (1::nat) (snd (appInitializer None empty_options init_system)) =
     (returns_Subject,
      (snd (appInitializer None empty_options init_system))
        \<lparr>initSnapshot := Some 1, promises := [Fulfilled]\<rparr>)
   \<and> invoke_hook (3::nat)
       (exec [HookFires 1,
              BootstrapListener \<lparr>components = [Ref 0], componentTypes = [Ref 7]\<rparr> (Ref 0),
              HookFires 2]
          (snd (appInitializer None empty_options init_system))) =
     (returns_of 3,
      exec [HookFires 1,
            BootstrapListener \<lparr>components = [Ref 0], componentTypes = [Ref 7]\<rparr> (Ref 0),
            HookFires 2]
        (snd (appInitializer None empty_options init_system)))
   \<and> initSnapshot
       (exec [HookFires 1,
              BootstrapListener \<lparr>components = [Ref 0], componentTypes = [Ref 7]\<rparr> (Ref 0),
              HookFires 2]
          (snd (appInitializer None empty_options (init_system :: nat system)))) = Some 1"
proof -
  let ?w0 = "init_system\<lparr>promises := [Pending], hooks_afterPreactivation := Some 0,
      calls := [initialNavigation_call]\<rparr> :: nat system"
  let ?es = "[HookFires 1,
      BootstrapListener \<lparr>components = [Ref 0], componentTypes = [Ref 7]\<rparr> (Ref 0),
      HookFires (2::nat)]"
  have a: "appInitializer None empty_options (init_system :: nat system) = (0, ?w0)"
    by (simp add: appInitializer_def empty_options_def init_system_def)
  have b: "hooks_afterPreactivation ?w0 \<noteq> None" by simp
  have l0: "list_all (\<lambda>e. \<not> is_AppInitializer e) ([] :: nat event list)" by simp
  have l1: "list_all (\<lambda>e. \<not> is_AppInitializer e) ?es" by simp
  from interception_captures_first_only[OF a b l0, of 1]
    interception_captures_first_only[OF a b l1, of 3] show ?thesis
    by (simp add: a)
qed

lemma step_never_settles:
  assumes "promises w = Pending # ps" "hooks_afterPreactivation w \<noteq> Some 0"
  shows "(\<exists>ps'. promises (step e w) = Pending # ps') \<and> hooks_afterPreactivation (step e w) \<noteq> Some 0"
proof (cases e)
  case (AppInitializer loc opts)
  with assms show ?thesis
    by (auto simp: appInitializer_def Let_def split: option.splits location_signal.splits)
next
  case (HookFires s)
  with assms show ?thesis
    by (cases "hooks_afterPreactivation w")
       (auto simp: invoke_hook_def afterPreactivation_def resolve_def list_update_code split: nat.splits)
next
  case (BootstrapListener ref c)
  with assms show ?thesis by (simp add: bootstrapListener_fields)
qed

lemma exec_never_settles:
  assumes "promises w = Pending # ps" "hooks_afterPreactivation w \<noteq> Some 0"
  shows "(\<exists>ps'. promises (exec es w) = Pending # ps') \<and> hooks_afterPreactivation (exec es w) \<noteq> Some 0"
  using assms
proof (induction es arbitrary: w ps)
  case Nil
  then show ?case by simp
next
  case (Cons e es)
  from step_never_settles[OF Cons.prems, of e] obtain ps' where
    "promises (step e w) = Pending # ps'" "hooks_afterPreactivation (step e w) \<noteq> Some 0"
    by blast
  from Cons.IH[OF this] show ?case by simp
qed

text \<open>
  C3, on the code at \<^verbatim>\<open>initialNavigation: false\<close>. The early-phase hook calls
  \<^verbatim>\<open>setUpLocationChangeListener\<close>, installs no interception and starts no navigation;
  the promise it returns is pending, and it stays pending whatever happens afterwards,
  so the startup never counts as done: on this branch nothing calls the resolver.
\<close>

theorem initialNavigation_false_never_settles:
  "appInitializer None (opts\<lparr>initialNavigation := Some False\<rparr>) (init_system :: 's system) =
     (0, init_system\<lparr>promises := [Pending], calls := [setUpLocationChangeListener]\<rparr>)
   \<and> (\<exists>ps. promises (exec es (snd (appInitializer None (opts\<lparr>initialNavigation := Some False\<rparr>)
          (init_system :: 's system)))) = Pending # ps)
   \<and> \<not> startup_done (exec es (snd (appInitializer None (opts\<lparr>initialNavigation := Some False\<rparr>)
          (init_system :: 's system))))"
proof -
  let ?w = "init_system\<lparr>promises := [Pending], calls := [setUpLocationChangeListener]\<rparr> :: 's system"
  have a: "appInitializer None (opts\<lparr>initialNavigation := Some False\<rparr>) (init_system :: 's system) = (0, ?w)"
    by (simp add: appInitializer_def init_system_def)
  have "promises ?w = [Pending]" "hooks_afterPreactivation ?w \<noteq> Some 0"
    by (simp_all add: init_system_def)
  from exec_never_settles[OF this, of es] obtain ps where
    ps: "promises (exec es ?w) = Pending # ps" by blast
  then have "\<not> startup_done (exec es ?w)" by (simp add: startup_done_def)
  with a ps show ?thesis by simp
qed

text \<open>
  C4. With a component that is not the first component of the application the
  late-phase hook changes nothing. With the first component it calls
  \<^verbatim>\<open>setUpPreloading\<close> and then \<^verbatim>\<open>resetRootComponentType\<close> with the first component
  type, leaves the snapshot, the promises and the hook slot alone, and passes the
  captured snapshot on through the subject and stops it, unless the subject had
  stopped before, which it then leaves as it was. On the stopped subject \<^verbatim>\<open>next\<close>,
  \<^verbatim>\<open>complete\<close> and a further late-phase call have no effect.
\<close>

theorem bootstrapListener_root_only:
  "(Some c \<noteq> index0 (components ref) \<longrightarrow> bootstrapListener ref c w = w)
   \<and> (Some c = index0 (components ref) \<longrightarrow>
        calls (bootstrapListener ref c w) =
          calls w @ [setUpPreloading, resetRootComponentType (index0 (componentTypes ref))]
        \<and> initSnapshot (bootstrapListener ref c w) = initSnapshot w
        \<and> promises (bootstrapListener ref c w) = promises w
        \<and> hooks_afterPreactivation (bootstrapListener ref c w) = hooks_afterPreactivation w
        \<and> resultOfPreactivationDone (bootstrapListener ref c w) =
            (if isStopped (resultOfPreactivationDone w) then resultOfPreactivationDone w
             else \<lparr>delivered = delivered (resultOfPreactivationDone w) @ [initSnapshot w],
                   isStopped = True\<rparr>)
        \<and> Subject_next v (resultOfPreactivationDone (bootstrapListener ref c w)) =
            resultOfPreactivationDone (bootstrapListener ref c w)
        \<and> Subject_complete (resultOfPreactivationDone (bootstrapListener ref c w)) =
            resultOfPreactivationDone (bootstrapListener ref c w)
        \<and> resultOfPreactivationDone (bootstrapListener ref' c' (bootstrapListener ref c w)) =
            resultOfPreactivationDone (bootstrapListener ref c w))"
proof -
  have stop: "isStopped (resultOfPreactivationDone (bootstrapListener ref c w))"
    if "Some c = index0 (components ref)"
    using that by (simp add: bootstrapListener_subject complete_next)
  have n: "Subject_next v sb = sb" "Subject_complete sb = sb" if "isStopped sb" for sb :: "'a option Subject"
    using that by (simp_all add: Subject_next_def Subject_complete_def)
  have again: "resultOfPreactivationDone (bootstrapListener ref' c' (bootstrapListener ref c w)) =
            resultOfPreactivationDone (bootstrapListener ref c w)"
    if "Some c = index0 (components ref)"
    using stop[OF that] by (simp add: bootstrapListener_subject[of ref' c'] complete_next)
  have calls: "calls (bootstrapListener ref c w) =
          calls w @ [setUpPreloading, resetRootComponentType (index0 (componentTypes ref))]"
    if "Some c = index0 (components ref)"
    using that by (simp add: bootstrapListener_def)
  have noop: "bootstrapListener ref c w = w" if "Some c \<noteq> index0 (components ref)"
    using that by (simp add: bootstrapListener_def)
  have sb: "resultOfPreactivationDone (bootstrapListener ref c w) =
            (if isStopped (resultOfPreactivationDone w) then resultOfPreactivationDone w
             else \<lparr>delivered = delivered (resultOfPreactivationDone w) @ [initSnapshot w],
                   isStopped = True\<rparr>)"
    if "Some c = index0 (components ref)"
    using that by (simp add: bootstrapListener_subject complete_next)
  show ?thesis
    using noop calls sb again n[OF stop] by (simp add: bootstrapListener_fields)
qed

theorem bootstrapListener_root_only_witness:
  "bootstrapListener \<lparr>components = [Ref 1, Ref 2], componentTypes = [Ref 10, Ref 20]\<rparr> (Ref 2)
      (init_system\<lparr>initSnapshot := Some (5::nat)\<rparr>) = init_system\<lparr>initSnapshot := Some 5\<rparr>
   \<and> calls (bootstrapListener \<lparr>components = [Ref 1, Ref 2], componentTypes = [Ref 10, Ref 20]\<rparr>
        (Ref 1) (init_system\<lparr>initSnapshot := Some (5::nat)\<rparr>)) =
       [setUpPreloading, resetRootComponentType (Some (Ref 10))]
   \<and> resultOfPreactivationDone
       (bootstrapListener \<lparr>components = [Ref 1, Ref 2], componentTypes = [Ref 10, Ref 20]\<rparr>
        (Ref 1) (init_system\<lparr>initSnapshot := Some (5::nat)\<rparr>)) =
       \<lparr>delivered = [Some 5], isStopped = True\<rparr>
   \<and> Subject_next (Some 6) (resultOfPreactivationDone
       (bootstrapListener \<lparr>components = [Ref 1, Ref 2], componentTypes = [Ref 10, Ref 20]\<rparr>
        (Ref 1) (init_system\<lparr>initSnapshot := Some (5::nat)\<rparr>))) =
       \<lparr>delivered = [Some 5], isStopped = True\<rparr>"
proof -
  let ?ref = "\<lparr>components = [Ref 1, Ref 2], componentTypes = [Ref 10, Ref 20]\<rparr>"
  let ?w = "init_system\<lparr>initSnapshot := Some (5::nat)\<rparr>"
  have n: "Some (Ref 2) \<noteq> index0 (components ?ref)" by (simp add: index0_def)
  have y: "Some (Ref 1) = index0 (components ?ref)" by (simp add: index0_def)
  from bootstrapListener_root_only[of "Ref 2" ?ref ?w] n
  have noop: "bootstrapListener ?ref (Ref 2) ?w = ?w" by blast
  from bootstrapListener_root_only[of "Ref 1" ?ref ?w "Some 6" ?ref "Ref 1"] y
  have root: "calls (bootstrapListener ?ref (Ref 1) ?w) =
        calls ?w @ [setUpPreloading, resetRootComponentType (index0 (componentTypes ?ref))]"
      "resultOfPreactivationDone (bootstrapListener ?ref (Ref 1) ?w) =
        (if isStopped (resultOfPreactivationDone ?w) then resultOfPreactivationDone ?w
         else \<lparr>delivered = delivered (resultOfPreactivationDone ?w) @ [initSnapshot ?w],
               isStopped = True\<rparr>)"
      "Subject_next (Some 6) (resultOfPreactivationDone (bootstrapListener ?ref (Ref 1) ?w)) =
        resultOfPreactivationDone (bootstrapListener ?ref (Ref 1) ?w)"
    by blast+
  show ?thesis
    by (simp only: noop root) (simp add: init_system_def Subject_new_def Subject_next_def index0_def)
qed

end
